theory Spec2Isabelle
  imports Complex_Main
begin

section \<open>Numbers\<close>

text \<open>
  The source is TypeScript (src/lib/emotionalManifold.ts); every \<^verbatim>\<open>number\<close> is an IEEE
  double. The embedding reads them as \<^typ>\<open>real\<close>: arithmetic is exact, there is no NaN,
  no infinity and no rounding. \<^verbatim>\<open>Math.tanh\<close>, \<^verbatim>\<open>Math.exp\<close>, \<^verbatim>\<open>Math.sqrt\<close> and
  \<^verbatim>\<open>Math.abs\<close> are \<^const>\<open>tanh\<close>, \<^const>\<open>exp\<close>, \<^const>\<open>sqrt\<close> and \<^const>\<open>abs\<close>.
  A division by zero of the source (a finite-difference step \<open>h = 0\<close>) yields NaN or an
  infinity there and \<open>0\<close> in HOL; the theorem on the determinant of the metric assumes
  \<open>h \<noteq> 0\<close>. Loop counters and tensor indices (\<^verbatim>\<open>i\<close>, \<^verbatim>\<open>j\<close>, \<^verbatim>\<open>k\<close>,
  \<^verbatim>\<open>steps\<close>) are \<^typ>\<open>nat\<close>.

  The range of the emotion intensities depends on what a double does when a product
  leaves the finite range. For that question the emotion field has a second embedding, over
  the type \<open>number\<close> of the section on the range of doubles, which has the infinities and
  NaN.
\<close>

section \<open>Data model\<close>

record EmotionalParams =
  EP :: real
  P :: real
  V :: real
  SC :: real
  Acc :: real
  W_p :: real
  T :: real

record Emotions =
  happiness :: real
  sadness :: real
  fear :: real
  anger :: real
  worry :: real

text \<open>The keys of the objects \<^verbatim>\<open>kappa\<close>, \<^verbatim>\<open>k_decay\<close> and \<^verbatim>\<open>Emotions\<close>.\<close>

datatype kind = Happiness | Sadness | Fear | Anger | Worry

fun kindName :: "kind \<Rightarrow> string" where
  "kindName Happiness = ''happiness''"
| "kindName Sadness = ''sadness''"
| "kindName Fear = ''fear''"
| "kindName Anger = ''anger''"
| "kindName Worry = ''worry''"

fun kappa :: "kind \<Rightarrow> real" where
  "kappa Happiness = 2.0"
| "kappa Sadness = 2.5"
| "kappa Fear = 4.0"
| "kappa Anger = 3.5"
| "kappa Worry = 3.0"

fun k_decay :: "kind \<Rightarrow> real" where
  "k_decay Happiness = 0.5"
| "k_decay Sadness = 0.3"
| "k_decay Fear = 1.0"
| "k_decay Anger = 0.7"
| "k_decay Worry = 0.4"

section \<open>The emotion field\<close>

definition computeHappiness :: "real \<Rightarrow> real \<Rightarrow> real \<Rightarrow> real \<Rightarrow> real \<Rightarrow> real \<Rightarrow> real \<Rightarrow> real" where
  "computeHappiness ep p v sc acc wp t =
     (let Delta = p - ep;
          weight = v * sc * acc * wp;
          scaled = kappa Happiness * weight * Delta;
          decayed = scaled * exp (- k_decay Happiness * t)
      in tanh decayed)"

definition computeSadness :: "real \<Rightarrow> real \<Rightarrow> real \<Rightarrow> real \<Rightarrow> real \<Rightarrow> real \<Rightarrow> real \<Rightarrow> real" where
  "computeSadness ep p v sc acc wp t =
     (let Delta = max (ep - p) 0;
          weight = v * sc * acc * wp;
          scaled = kappa Sadness * weight * Delta;
          decayed = scaled * exp (- k_decay Sadness * t)
      in - tanh decayed)"

definition computeFear :: "real \<Rightarrow> real \<Rightarrow> real \<Rightarrow> real \<Rightarrow> real \<Rightarrow> real \<Rightarrow> real \<Rightarrow> real" where
  "computeFear ep p v sc acc wp t =
     (let Delta = max (ep - p) 0;
          weight = v * sc * (1 - acc) * wp;
          scaled = kappa Fear * weight * Delta;
          decayed = scaled * exp (- k_decay Fear * t)
      in tanh decayed)"

definition computeAnger :: "real \<Rightarrow> real \<Rightarrow> real \<Rightarrow> real \<Rightarrow> real \<Rightarrow> real \<Rightarrow> real \<Rightarrow> real" where
  "computeAnger ep p v sc acc w_ext t =
     (let Delta = max (ep - p) 0;
          weight = v * sc * (1 - acc) * w_ext;
          scaled = kappa Anger * weight * Delta;
          decayed = scaled * exp (- k_decay Anger * t)
      in tanh decayed)"

definition computeWorry :: "real \<Rightarrow> real \<Rightarrow> real \<Rightarrow> real \<Rightarrow> real \<Rightarrow> real \<Rightarrow> real \<Rightarrow> real" where
  "computeWorry ep p v sc acc wp t =
     (let Delta = max (ep - p) 0;
          weight = v * sc * (1 - acc) * wp;
          scaled = kappa Worry * weight * Delta;
          decayed = scaled * exp (- k_decay Worry * t)
      in tanh decayed)"

definition computeAllEmotions :: "real \<Rightarrow> real \<Rightarrow> real \<Rightarrow> real \<Rightarrow> real \<Rightarrow> real \<Rightarrow> real \<Rightarrow> Emotions" where
  "computeAllEmotions ep p v sc acc wp t =
     (let w_ext = 1 - wp
      in \<lparr> happiness = computeHappiness ep p v sc acc wp t,
           sadness = computeSadness ep p v sc acc wp t,
           fear = computeFear ep p v sc acc wp t,
           anger = computeAnger ep p v sc acc w_ext t,
           worry = computeWorry ep p v sc acc wp t \<rparr>)"

text \<open>\<^verbatim>\<open>Object.entries(emotions)\<close>: the five fields in the order the object literal lists them.\<close>

definition entries :: "Emotions \<Rightarrow> (kind \<times> real) list" where
  "entries e = [(Happiness, happiness e), (Sadness, sadness e), (Fear, fear e),
                (Anger, anger e), (Worry, worry e)]"

record Dominant =
  emotion :: string
  magnitude :: real

text \<open>The loop of \<^verbatim>\<open>getDominantEmotion\<close>: the state is \<open>(maxMag, dom)\<close>.\<close>

definition dominantStep :: "kind \<times> real \<Rightarrow> real \<times> string \<Rightarrow> real \<times> string" where
  "dominantStep ev st =
     (if \<bar>snd ev\<bar> > fst st then (\<bar>snd ev\<bar>, kindName (fst ev)) else st)"

definition getDominantEmotion :: "Emotions \<Rightarrow> Dominant" where
  "getDominantEmotion emotions =
     (let st = fold dominantStep (entries emotions) (0, ''neutral'')
      in \<lparr> emotion = snd st, magnitude = fst st \<rparr>)"

text \<open>The loop of \<^verbatim>\<open>computeManifoldHeight\<close>: the state is \<open>(h, w)\<close>.\<close>

definition heightStep :: "kind \<times> real \<Rightarrow> real \<times> real \<Rightarrow> real \<times> real" where
  "heightStep ev st =
     (let wt = kappa (fst ev) in (fst st + snd ev * wt, snd st + wt))"

definition computeManifoldHeight :: "real \<Rightarrow> real \<Rightarrow> EmotionalParams \<Rightarrow> real" where
  "computeManifoldHeight x y params =
     (let emotions = computeAllEmotions x y (V params) (SC params) (Acc params) (W_p params) (T params);
          st = fold heightStep (entries emotions) (0, 0)
      in (fst st / (snd st + 1 / 10 ^ 9)) * 2)"

section \<open>The emotion field over the range of doubles\<close>

text \<open>
  A double is a finite number, an infinity or NaN. The operations below follow IEEE 754
  where a result leaves the finite range: a finite result of magnitude at least
  \<open>2^1024 - 2^970\<close> rounds to an infinity, one of magnitude at most \<open>2^-1075\<close> rounds to
  0, an infinity times 0 and the difference of equal infinities are NaN, and NaN
  propagates. Inside the finite range the exact result is taken: rounding is not part of
  the model, and neither is the sign of zero. \<^verbatim>\<open>Math.max\<close> returns NaN when an argument
  is NaN, \<^verbatim>\<open>Math.tanh\<close> maps the infinities to 1 and -1, and a comparison with NaN is
  false.
\<close>

datatype number = Fin real | PInf | NInf | NaN
























section \<open>The metric engine\<close>

definition computeCurvature :: "real \<Rightarrow> real \<Rightarrow> EmotionalParams \<Rightarrow> real \<Rightarrow> real" where
  "computeCurvature x y params h =
     (let z = computeManifoldHeight x y params;
          z_xx = (computeManifoldHeight (x + h) y params - 2 * z + computeManifoldHeight (x - h) y params) / (h * h);
          z_yy = (computeManifoldHeight x (y + h) params - 2 * z + computeManifoldHeight x (y - h) params) / (h * h);
          z_xy = (computeManifoldHeight (x + h) (y + h) params - computeManifoldHeight (x + h) (y - h) params
                  - computeManifoldHeight (x - h) (y + h) params + computeManifoldHeight (x - h) (y - h) params)
                 / (4 * h * h);
          z_x = (computeManifoldHeight (x + h) y params - computeManifoldHeight (x - h) y params) / (2 * h);
          z_y = (computeManifoldHeight x (y + h) params - computeManifoldHeight x (y - h) params) / (2 * h);
          num = z_xx * z_yy - z_xy * z_xy;
          den = (1 + z_x * z_x + z_y * z_y) ^ 2
      in num / (den + 1 / 10 ^ 10))"

text \<open>A \<^verbatim>\<open>number[][]\<close>; the functions below build and read 2x2 matrices only.\<close>

type_synonym matrix = "real list list"

definition computeMetricTensor :: "real \<Rightarrow> real \<Rightarrow> EmotionalParams \<Rightarrow> real \<Rightarrow> matrix" where
  "computeMetricTensor x y params h =
     (let z = computeManifoldHeight x y params;
          z_x = (computeManifoldHeight (x + h) y params - z) / h;
          z_y = (computeManifoldHeight x (y + h) params - z) / h
      in [[1 + z_x * z_x, z_x * z_y],
          [z_x * z_y, 1 + z_y * z_y]])"

definition invertMatrix2x2 :: "matrix \<Rightarrow> matrix" where
  "invertMatrix2x2 m =
     (let d = m ! 0 ! 0 * m ! 1 ! 1 - m ! 0 ! 1 * m ! 1 ! 0
      in if \<bar>d\<bar> < 1 / 10 ^ 10 then [[1, 0], [0, 1]]
         else [[m ! 1 ! 1 / d, - (m ! 0 ! 1) / d],
               [- (m ! 1 ! 0) / d, m ! 0 ! 0 / d]])"

datatype dir = DirX | DirY

definition computeMetricDerivative :: "real \<Rightarrow> real \<Rightarrow> EmotionalParams \<Rightarrow> real \<Rightarrow> dir \<Rightarrow> matrix" where
  "computeMetricDerivative x y params h d =
     (let g = computeMetricTensor x y params h;
          g2 = (if d = DirX then computeMetricTensor (x + h) y params h
                else computeMetricTensor x (y + h) params h)
      in [[(g2 ! 0 ! 0 - g ! 0 ! 0) / h, (g2 ! 0 ! 1 - g ! 0 ! 1) / h],
          [(g2 ! 1 ! 0 - g ! 1 ! 0) / h, (g2 ! 1 ! 1 - g ! 1 ! 1) / h]])"

section \<open>The Christoffel cache\<close>

text \<open>
  \<^verbatim>\<open>x.toFixed(3)\<close> (ECMAScript, Number.prototype.toFixed): the sign is taken from
  \<open>x < 0\<close>, and below \<open>10^21\<close> the digits are those of the integer \<open>n\<close> nearest to
  \<open>|x| * 1000\<close>, the larger one on a tie; from \<open>10^21\<close> on the result is the number's own
  shortest representation, which determines the number. The string is determined by, and
  determines, the value below.
\<close>

datatype fixed = Fixed bool nat | Exponential real

definition toFixed3 :: "real \<Rightarrow> fixed" where
  "toFixed3 x =
     (if \<bar>x\<bar> \<ge> 10 ^ 21 then Exponential x
      else Fixed (x < 0) (nat \<lfloor>\<bar>x\<bar> * 1000 + 1 / 2\<rfloor>))"

text \<open>
  The key \<^verbatim>\<open>`${i}-${j}-${k}-${x.toFixed(3)}-${y.toFixed(3)}`\<close>. For natural numbers
  \<open>i\<close>, \<open>j\<close>, \<open>k\<close> the five fields can be read back from the string, so the key is the
  tuple of the fields. Neither \<^verbatim>\<open>params\<close> nor \<^verbatim>\<open>h\<close> is part of it.
\<close>

type_synonym key = "nat \<times> nat \<times> nat \<times> fixed \<times> fixed"

definition cacheKey :: "nat \<Rightarrow> nat \<Rightarrow> nat \<Rightarrow> real \<Rightarrow> real \<Rightarrow> key" where
  "cacheKey i j k x y = (i, j, k, toFixed3 x, toFixed3 y)"

text \<open>
  The field \<^verbatim>\<open>christoffelCache: Map<string, number>\<close> of the manifold object is the
  only mutable state. A method that reads or writes it takes the cache and returns the new
  one together with its result; a \<^verbatim>\<open>TypeError\<close> of the runtime (a property read on
  \<^verbatim>\<open>undefined\<close>) is the result \<open>Inl TypeError\<close>, and leaves the cache as it was when
  the error was raised.
\<close>

datatype error = TypeError

type_synonym cache = "key \<rightharpoonup> real"

type_synonym 'a comp = "cache \<Rightarrow> (error + 'a) \<times> cache"

definition ret :: "'a \<Rightarrow> 'a comp" where
  "ret a = (\<lambda>c. (Inr a, c))"

definition bnd :: "'a comp \<Rightarrow> ('a \<Rightarrow> 'b comp) \<Rightarrow> 'b comp" where
  "bnd m f = (\<lambda>c. case m c of (Inl e, c') \<Rightarrow> (Inl e, c') | (Inr a, c') \<Rightarrow> f a c')"

text \<open>
  Lines 193 to 205 of the source: the value \<^verbatim>\<open>gamma\<close> computed on a cache miss, for
  indices below 2.
\<close>

definition christoffelGamma :: "nat \<Rightarrow> nat \<Rightarrow> nat \<Rightarrow> real \<Rightarrow> real \<Rightarrow> EmotionalParams \<Rightarrow> real \<Rightarrow> real" where
  "christoffelGamma i j k x y params h =
     (let g = computeMetricTensor x y params h;
          g_inv = invertMatrix2x2 g;
          dg_dx = computeMetricDerivative x y params h DirX;
          dg_dy = computeMetricDerivative x y params h DirY;
          derivs = [dg_dx, dg_dy]
      in fold (\<lambda>l gamma.
                 let term1 = (if j < 2 then derivs ! j ! k ! l else 0);
                     term2 = (if k < 2 then derivs ! k ! j ! l else 0);
                     term3 = (if l < 2 then derivs ! l ! j ! k else 0)
                 in gamma + 0.5 * g_inv ! i ! l * (term1 + term2 - term3))
              [0 ..< 2] 0)"

text \<open>
  \<^verbatim>\<open>computeChristoffelSymbol\<close>. The cache is looked up first. On a miss, an index that
  is not below 2 makes the loop read a property of \<^verbatim>\<open>undefined\<close>
  (\<^verbatim>\<open>derivs[j][k][l]\<close> with \<open>k \<ge> 2\<close>, \<^verbatim>\<open>derivs[k][j][l]\<close> or \<^verbatim>\<open>derivs[l][j][k]\<close> with
  \<open>j \<ge> 2\<close>, \<^verbatim>\<open>g_inv[i][l]\<close> with \<open>i \<ge> 2\<close>), which throws before anything is stored.
\<close>

definition computeChristoffelSymbol ::
  "nat \<Rightarrow> nat \<Rightarrow> nat \<Rightarrow> real \<Rightarrow> real \<Rightarrow> EmotionalParams \<Rightarrow> real \<Rightarrow> real comp" where
  "computeChristoffelSymbol i j k x y params h =
     (\<lambda>c. let key = cacheKey i j k x y
          in case c key of
               Some v \<Rightarrow> (Inr v, c)
             | None \<Rightarrow>
                 if i < 2 \<and> j < 2 \<and> k < 2
                 then (let gamma = christoffelGamma i j k x y params h
                       in (Inr gamma, c(key \<mapsto> gamma)))
                 else (Inl TypeError, c))"

section \<open>The geodesic integrator\<close>

datatype Vector3 = Vector3 (v3x: real) (v3y: real) (v3z: real)

datatype Vector2 = Vector2 (v2x: real) (v2y: real)

text \<open>The argument type \<^verbatim>\<open>{ x: number; y: number }\<close> of the start, end and base points.\<close>

datatype Point2 = Point2 (px: real) (py: real)





section \<open>Parallel transport\<close>

record TransportedVector =
  position :: Vector3
  vector :: Vector2

text \<open>
  The loop \<^verbatim>\<open>for (let i = 0; i < path.length - 1; i++)\<close> reads \<^verbatim>\<open>path[i]\<close> and
  \<^verbatim>\<open>path[i + 1]\<close>: one pass for each pair of consecutive points, none for a path of
  fewer than two points. The state is the carried vector \<open>(Vx, Vy)\<close> and the result list.
\<close>

fun transportLoop ::
  "EmotionalParams \<Rightarrow> Vector3 list \<Rightarrow> real \<times> real \<Rightarrow> TransportedVector list \<Rightarrow> TransportedVector list comp" where
  "transportLoop params (p1 # p2 # rest) Vv res =
     (let h = 0.01;
          Vx = fst Vv;
          Vy = snd Vv;
          tx = v3x p2 - v3x p1;
          ty = v3y p2 - v3y p1;
          tm = (let m = sqrt (tx * tx + ty * ty) in if m = 0 then 1 else m);
          tnx = tx / tm;
          tny = ty / tm;
          x = v3x p1 / 3;
          y = v3y p1 / 3
      in bnd (computeChristoffelSymbol 0 0 0 x y params h) (\<lambda>Gxx.
         bnd (computeChristoffelSymbol 0 0 1 x y params h) (\<lambda>Gxy.
         bnd (computeChristoffelSymbol 0 1 1 x y params h) (\<lambda>Gyy.
         bnd (computeChristoffelSymbol 1 0 0 x y params h) (\<lambda>Hxx.
         bnd (computeChristoffelSymbol 1 0 1 x y params h) (\<lambda>Hxy.
         bnd (computeChristoffelSymbol 1 1 1 x y params h) (\<lambda>Hyy.
         let dVx = - (Gxx * tnx * Vx + Gxy * (tnx * Vy + tny * Vx) + Gyy * tny * Vy);
             dVy = - (Hxx * tnx * Vx + Hxy * (tnx * Vy + tny * Vx) + Hyy * tny * Vy);
             Vx' = Vx + dVx * tm;
             Vy' = Vy + dVy * tm
         in transportLoop params (p2 # rest) (Vx', Vy')
              (res @ [\<lparr> position = p1, vector = Vector2 Vx' Vy' \<rparr>]))))))))"
| "transportLoop params path Vv res = ret res"

definition parallelTransport ::
  "Vector2 \<Rightarrow> Vector3 list \<Rightarrow> EmotionalParams \<Rightarrow> TransportedVector list comp" where
  "parallelTransport vec path params = transportLoop params path (v2x vec, v2y vec) []"

section \<open>Fiber samples and connection curvature\<close>

text \<open>The body of the loop of \<^verbatim>\<open>computeFiberBundle\<close> for the counter \<open>i\<close>, with \<open>N = 20\<close>.\<close>

definition fiberPush :: "Point2 \<Rightarrow> EmotionalParams \<Rightarrow> nat \<Rightarrow> Vector3 list \<Rightarrow> Vector3 list" where
  "fiberPush base params i pts =
     (let N = 20;
          w_p = real i / N;
          z = computeManifoldHeight (px base) (py base) (params\<lparr>W_p := w_p\<rparr>);
          fh = (w_p - 0.5) * 2
      in pts @ [Vector3 (px base * 3) (py base * 3) (z + fh)])"

definition computeFiberBundle :: "Point2 \<Rightarrow> EmotionalParams \<Rightarrow> Vector3 list" where
  "computeFiberBundle base params = fold (fiberPush base params) [0 ..< Suc 20] []"

text \<open>
  \<^verbatim>\<open>Math.atan2(y, x)\<close> on real arguments (ECMAScript): the angle of the point
  \<open>(x, y)\<close> in \<open>(-\<pi>, \<pi>]\<close>, and \<open>0\<close> at the origin.
\<close>

definition atan2 :: "real \<Rightarrow> real \<Rightarrow> real" where
  "atan2 y x =
     (if x > 0 then arctan (y / x)
      else if x < 0 then (if y \<ge> 0 then arctan (y / x) + pi else arctan (y / x) - pi)
      else if y > 0 then pi / 2
      else if y < 0 then - pi / 2
      else 0)"

definition computeConnectionCurvature :: "real \<Rightarrow> real \<Rightarrow> EmotionalParams \<Rightarrow> real \<Rightarrow> real comp" where
  "computeConnectionCurvature x y params h =
     (let loop = [(x, y), (x + h, y), (x + h, y + h), (x, y + h), (x, y)];
          path = map (\<lambda>q. Vector3 (fst q * 3) (snd q * 3) (computeManifoldHeight (fst q) (snd q) params)) loop;
          init = Vector2 1 0
      in bnd (parallelTransport init path params) (\<lambda>trans.
           if length trans > 0
           then (let fv = vector (last trans);
                     ang = atan2 (v2y fv) (v2x fv) - atan2 (v2y init) (v2x init)
                 in ret (ang / (h * h)))
           else ret 0))"

section \<open>Notions used to state the properties\<close>



fun finBelow :: "real \<Rightarrow> number \<Rightarrow> bool" where
  "finBelow B (Fin r) = (\<bar>r\<bar> \<le> B)"
| "finBelow B x = False"


text \<open>Determinant, product and identity of 2x2 matrices, in exact arithmetic.\<close>

definition det2 :: "matrix \<Rightarrow> real" where
  "det2 m = m ! 0 ! 0 * m ! 1 ! 1 - m ! 0 ! 1 * m ! 1 ! 0"

definition mult2 :: "matrix \<Rightarrow> matrix \<Rightarrow> matrix" where
  "mult2 a b =
     [[a ! 0 ! 0 * b ! 0 ! 0 + a ! 0 ! 1 * b ! 1 ! 0, a ! 0 ! 0 * b ! 0 ! 1 + a ! 0 ! 1 * b ! 1 ! 1],
      [a ! 1 ! 0 * b ! 0 ! 0 + a ! 1 ! 1 * b ! 1 ! 0, a ! 1 ! 0 * b ! 0 ! 1 + a ! 1 ! 1 * b ! 1 ! 1]]"

definition identity2 :: matrix where
  "identity2 = [[1, 0], [0, 1]]"




text \<open>
  The cache of a manifold object is written by \<open>computeChristoffelSymbol\<close> only (the
  other methods reach it through that method), so the cache of an object is the one left by
  the list of the calls of that method made on it since it was created with an empty map.
\<close>

datatype call = Call nat nat nat real real EmotionalParams real

fun callKey :: "call \<Rightarrow> key" where
  "callKey (Call i j k x y params h) = cacheKey i j k x y"

fun runCall :: "call \<Rightarrow> real comp" where
  "runCall (Call i j k x y params h) = computeChristoffelSymbol i j k x y params h"

definition cacheAfter :: "call list \<Rightarrow> cache" where
  "cacheAfter calls = fold (\<lambda>q c. snd (runCall q c)) calls Map.empty"

text \<open>
  \<open>runCalls calls c\<close> is the cache that the calls leave when they start from the cache
  \<open>c\<close>. \<open>freshValue q\<close> is the value the call \<open>q\<close> computes on a cache miss.
  \<open>servedValue calls q\<close> is the fresh value of the earliest call of the history \<open>calls\<close>
  that has the cache key of \<open>q\<close>, and the fresh value of \<open>q\<close> itself when the history
  has no such call.
\<close>

definition runCalls :: "call list \<Rightarrow> cache \<Rightarrow> cache" where
  "runCalls calls c = fold (\<lambda>q c. snd (runCall q c)) calls c"

fun freshValue :: "call \<Rightarrow> real" where
  "freshValue (Call i j k x y params h) = christoffelGamma i j k x y params h"

definition servedValue :: "call list \<Rightarrow> call \<Rightarrow> real" where
  "servedValue calls q =
     (case find (\<lambda>q'. callKey q' = callKey q) calls of
        None \<Rightarrow> freshValue q
      | Some q' \<Rightarrow> freshValue q')"



text \<open>
  \<open>valid I m Q\<close>: from every cache that satisfies \<open>I\<close> the computation \<open>m\<close> returns
  without error, with a result that satisfies \<open>Q\<close> and a cache that satisfies \<open>I\<close> again.
  \<open>anyCache\<close> holds of every cache, \<open>zeroCache\<close> of the caches whose stored values are
  all 0 (the empty cache among them).
\<close>

definition valid :: "(cache \<Rightarrow> bool) \<Rightarrow> 'a comp \<Rightarrow> ('a \<Rightarrow> bool) \<Rightarrow> bool" where
  "valid I m Q = (\<forall>c. I c \<longrightarrow> (\<exists>a c'. m c = (Inr a, c') \<and> I c' \<and> Q a))"

definition anyCache :: "cache \<Rightarrow> bool" where
  "anyCache c = True"

definition zeroCache :: "cache \<Rightarrow> bool" where
  "zeroCache c = (\<forall>k v. c k = Some v \<longrightarrow> v = 0)"


text \<open>
  The trace of a start point moving with constant velocity \<open>(vx, vy)\<close> in steps of \<open>dt\<close>
  on the flat surface of height 0, stopped after the first point outside the domain.
\<close>

fun straightTrace :: "nat \<Rightarrow> real \<Rightarrow> real \<Rightarrow> real \<Rightarrow> real \<Rightarrow> real \<Rightarrow> Vector3 list" where
  "straightTrace 0 dt x y vx vy = []"
| "straightTrace (Suc n) dt x y vx vy =
     (let x' = x + dt * vx; y' = y + dt * vy
      in Vector3 (x' * 3) (y' * 3) 0
         # (if \<bar>x'\<bar> > 1 \<or> \<bar>y'\<bar> > 1 then [] else straightTrace n dt x' y' vx vy))"


text \<open>
  Two parameter records used as concrete inputs. With \<open>V = 0\<close> every emotion weight is
  zero and the surface is flat. With \<open>V = SC = 1\<close>, \<open>Acc = 0\<close>, \<open>W_p = 0\<close>, \<open>T = 0\<close> only
  anger is non-zero, and the height is a multiple of \<open>tanh (3.5 * max (x - y) 0)\<close>.
\<close>

definition flatParams :: EmotionalParams where
  "flatParams = \<lparr> EP = 0, P = 0, V = 0, SC = 1, Acc = 0, W_p = 0, T = 0 \<rparr>"

definition angerParams :: EmotionalParams where
  "angerParams = \<lparr> EP = 0, P = 0, V = 1, SC = 1, Acc = 0, W_p = 0, T = 0 \<rparr>"

text \<open>The golden fixture of the specification, and the same record with other \<open>EP\<close>, \<open>P\<close>.\<close>

definition goldenParams :: EmotionalParams where
  "goldenParams = \<lparr> EP = 0.7, P = 0.3, V = 0.8, SC = 0.9, Acc = 0.5, W_p = 0.85, T = 0 \<rparr>"

definition goldenParams' :: EmotionalParams where
  "goldenParams' = \<lparr> EP = - 1, P = 1, V = 0.8, SC = 0.9, Acc = 0.5, W_p = 0.85, T = 0 \<rparr>"

section \<open>The emotion field: theorems\<close>

lemma tanh_abs_le_1: "\<bar>tanh (u::real)\<bar> \<le> 1"
  using tanh_real_lt_1 [of u] tanh_real_gt_neg1 [of u] by (simp add: abs_le_iff)

lemma computeManifoldHeight_unfold:
  "computeManifoldHeight x y params =
     ((computeHappiness x y (V params) (SC params) (Acc params) (W_p params) (T params) * 2
       + computeSadness x y (V params) (SC params) (Acc params) (W_p params) (T params) * 2.5
       + computeFear x y (V params) (SC params) (Acc params) (W_p params) (T params) * 4
       + computeAnger x y (V params) (SC params) (Acc params) (1 - W_p params) (T params) * 3.5
       + computeWorry x y (V params) (SC params) (Acc params) (W_p params) (T params) * 3)
      / (15 + 1 / 10 ^ 9)) * 2"
  by (simp add: computeManifoldHeight_def computeAllEmotions_def entries_def heightStep_def Let_def)

lemma emotions_abs_le_1:
  "\<bar>computeHappiness ep p v sc acc wp t\<bar> \<le> 1"
  "\<bar>computeSadness ep p v sc acc wp t\<bar> \<le> 1"
  "\<bar>computeFear ep p v sc acc wp t\<bar> \<le> 1"
  "\<bar>computeAnger ep p v sc acc wp t\<bar> \<le> 1"
  "\<bar>computeWorry ep p v sc acc wp t\<bar> \<le> 1"
  by (simp_all only: computeHappiness_def computeSadness_def computeFear_def computeAnger_def
        computeWorry_def Let_def abs_minus_cancel tanh_abs_le_1)

lemma fold_dominantStep_fst:
  "fst (fold dominantStep evs st) = fold (\<lambda>ev m. max m \<bar>snd ev\<bar>) evs (fst st)"
  by (induction evs arbitrary: st) (auto simp: dominantStep_def max_def)

text \<open>
  In exact arithmetic each of the five intensities lies in \<open>[-1, 1]\<close>, and the magnitude
  returned by \<open>getDominantEmotion\<close> is the maximum of the absolute values of the five
  entries of its argument.
\<close>

theorem emotions_bounded_dominant_max:
  "- 1 \<le> happiness (computeAllEmotions ep p v sc acc wp t) \<and> happiness (computeAllEmotions ep p v sc acc wp t) \<le> 1
   \<and> - 1 \<le> sadness (computeAllEmotions ep p v sc acc wp t) \<and> sadness (computeAllEmotions ep p v sc acc wp t) \<le> 1
   \<and> - 1 \<le> fear (computeAllEmotions ep p v sc acc wp t) \<and> fear (computeAllEmotions ep p v sc acc wp t) \<le> 1
   \<and> - 1 \<le> anger (computeAllEmotions ep p v sc acc wp t) \<and> anger (computeAllEmotions ep p v sc acc wp t) \<le> 1
   \<and> - 1 \<le> worry (computeAllEmotions ep p v sc acc wp t) \<and> worry (computeAllEmotions ep p v sc acc wp t) \<le> 1
   \<and> magnitude (getDominantEmotion em)
       = Max {\<bar>happiness em\<bar>, \<bar>sadness em\<bar>, \<bar>fear em\<bar>, \<bar>anger em\<bar>, \<bar>worry em\<bar>}"
proof -
  have b: "\<And>u::real. \<bar>u\<bar> \<le> 1 \<Longrightarrow> - 1 \<le> u \<and> u \<le> 1" by (simp add: abs_le_iff)
  have m: "magnitude (getDominantEmotion em)
       = Max {\<bar>happiness em\<bar>, \<bar>sadness em\<bar>, \<bar>fear em\<bar>, \<bar>anger em\<bar>, \<bar>worry em\<bar>}"
  proof -
    have "magnitude (getDominantEmotion em) = fold (\<lambda>ev m. max m \<bar>snd ev\<bar>) (entries em) 0"
      unfolding getDominantEmotion_def Let_def by (simp add: fold_dominantStep_fst)
    also have "\<dots> = Max {\<bar>happiness em\<bar>, \<bar>sadness em\<bar>, \<bar>fear em\<bar>, \<bar>anger em\<bar>, \<bar>worry em\<bar>}"
      unfolding entries_def by (simp add: max.assoc)
    finally show ?thesis .
  qed
  have e: "happiness (computeAllEmotions ep p v sc acc wp t) = computeHappiness ep p v sc acc wp t"
     "sadness (computeAllEmotions ep p v sc acc wp t) = computeSadness ep p v sc acc wp t"
     "fear (computeAllEmotions ep p v sc acc wp t) = computeFear ep p v sc acc wp t"
     "anger (computeAllEmotions ep p v sc acc wp t) = computeAnger ep p v sc acc (1 - wp) t"
     "worry (computeAllEmotions ep p v sc acc wp t) = computeWorry ep p v sc acc wp t"
    by (simp_all add: computeAllEmotions_def)
  show ?thesis
    unfolding e
    using b [OF emotions_abs_le_1(1) [of ep p v sc acc wp t]]
          b [OF emotions_abs_le_1(2) [of ep p v sc acc wp t]]
          b [OF emotions_abs_le_1(3) [of ep p v sc acc wp t]]
          b [OF emotions_abs_le_1(4) [of ep p v sc acc "1 - wp" t]]
          b [OF emotions_abs_le_1(5) [of ep p v sc acc wp t]] m
    by blast
qed

text \<open>
  C9. \<open>computeManifoldHeight\<close> does not read the fields \<open>EP\<close> and \<open>P\<close> of its parameter
  record: two records that agree on \<open>V\<close>, \<open>SC\<close>, \<open>Acc\<close>, \<open>W_p\<close> and \<open>T\<close> give the same
  height at every point, the coordinates \<open>x\<close> and \<open>y\<close> standing for expectation and
  perception.
\<close>

theorem height_ignores_EP_P:
  assumes "V p1 = V p2" "SC p1 = SC p2" "Acc p1 = Acc p2" "W_p p1 = W_p p2" "T p1 = T p2"
  shows "computeManifoldHeight x y p1 = computeManifoldHeight x y p2"
  using assms by (simp add: computeManifoldHeight_def)

theorem height_ignores_EP_P_witness:
  "V goldenParams = V goldenParams' \<and> SC goldenParams = SC goldenParams'
   \<and> Acc goldenParams = Acc goldenParams' \<and> W_p goldenParams = W_p goldenParams'
   \<and> T goldenParams = T goldenParams'
   \<and> EP goldenParams \<noteq> EP goldenParams' \<and> P goldenParams \<noteq> P goldenParams'
   \<and> computeManifoldHeight 0.7 0.3 goldenParams = computeManifoldHeight 0.7 0.3 goldenParams'"
  using height_ignores_EP_P [of goldenParams goldenParams' "0.7" "0.3"]
  by (simp add: goldenParams_def goldenParams'_def)

section \<open>The emotion field over the range of doubles: theorems\<close>






lemma finBelow_mono: "finBelow A x \<Longrightarrow> A \<le> B \<Longrightarrow> finBelow B x"
  by (cases x) auto

lemma finBelow_nonneg: "finBelow A x \<Longrightarrow> 0 \<le> A"
  by (cases x) auto






















section \<open>The metric engine: theorems\<close>

lemma not_small_nonzero: "\<not> \<bar>D::real\<bar> < 1 / 10 ^ 10 \<Longrightarrow> D \<noteq> 0"
  by auto

lemma ge_1_not_small: "(1::real) \<le> D \<Longrightarrow> \<not> \<bar>D\<bar> < 1 / 10 ^ 10"
  by simp

lemma invert_regular:
  assumes "\<not> \<bar>a * d - b * c\<bar> < 1 / 10 ^ 10"
  shows "mult2 (invertMatrix2x2 [[a, b], [c, d]]) [[a, b], [c, d]] = identity2"
    and "mult2 [[a, b], [c, d]] (invertMatrix2x2 [[a, b], [c, d]]) = identity2"
proof -
  from assms have nz: "a * d - b * c \<noteq> 0" by (rule not_small_nonzero)
  have i: "invertMatrix2x2 [[a, b], [c, d]]
      = [[d / (a * d - b * c), - b / (a * d - b * c)], [- c / (a * d - b * c), a / (a * d - b * c)]]"
    using assms by (simp add: invertMatrix2x2_def Let_def)
  define D where "D = a * d - b * c"
  have nzD: "D \<noteq> 0" using nz by (simp add: D_def)
  have q: "\<And>u w. u / D * a + w / D * c = (u * a + w * c) / D"
          "\<And>u w. u / D * b + w / D * d = (u * b + w * d) / D"
          "\<And>u w. a * (u / D) + b * (w / D) = (a * u + b * w) / D"
          "\<And>u w. c * (u / D) + d * (w / D) = (c * u + d * w) / D"
    by (simp_all add: add_divide_distrib)
  have n: "d * a + - b * c = D" "d * b + - b * d = 0" "- c * a + a * c = 0" "- c * b + a * d = D"
          "a * d + b * - c = D" "a * - b + b * a = 0" "c * d + d * - c = 0" "c * - b + d * a = D"
    by (simp_all add: D_def algebra_simps)
  have 1: "d / D * a + - b / D * c = 1" unfolding q n using nzD by simp
  have 2: "d / D * b + - b / D * d = 0" unfolding q n by simp
  have 3: "- c / D * a + a / D * c = 0" unfolding q n by simp
  have 4: "- c / D * b + a / D * d = 1" unfolding q n using nzD by simp
  have 5: "a * (d / D) + b * (- c / D) = 1" unfolding q n using nzD by simp
  have 6: "a * (- b / D) + b * (a / D) = 0" unfolding q n by simp
  have 7: "c * (d / D) + d * (- c / D) = 0" unfolding q n by simp
  have 8: "c * (- b / D) + d * (a / D) = 1" unfolding q n using nzD by simp
  note i = i [folded D_def]
  show "mult2 (invertMatrix2x2 [[a, b], [c, d]]) [[a, b], [c, d]] = identity2"
    unfolding i mult2_def identity2_def using 1 2 3 4 by simp
  show "mult2 [[a, b], [c, d]] (invertMatrix2x2 [[a, b], [c, d]]) = identity2"
    unfolding i mult2_def identity2_def using 5 6 7 8 by simp
qed

text \<open>
  C7. For every 2x2 real matrix \<open>m = [[a, b], [c, d]]\<close>, \<open>invertMatrix2x2 m\<close> is the
  identity matrix when \<open>|det m| < 1e-10\<close>, and otherwise the inverse of \<open>m\<close>: its product
  with \<open>m\<close>, on either side, is the identity in exact arithmetic. The function is total on
  2x2 matrices: every index it reads is in range, and it has no failing branch.
\<close>

theorem invertMatrix2x2_identity_or_inverse:
  "(\<bar>det2 [[a, b], [c, d]]\<bar> < 1 / 10 ^ 10 \<longrightarrow> invertMatrix2x2 [[a, b], [c, d]] = identity2)
   \<and> (\<not> \<bar>det2 [[a, b], [c, d]]\<bar> < 1 / 10 ^ 10 \<longrightarrow>
        mult2 (invertMatrix2x2 [[a, b], [c, d]]) [[a, b], [c, d]] = identity2
        \<and> mult2 [[a, b], [c, d]] (invertMatrix2x2 [[a, b], [c, d]]) = identity2)"
proof (intro conjI impI)
  assume "\<bar>det2 [[a, b], [c, d]]\<bar> < 1 / 10 ^ 10"
  then show "invertMatrix2x2 [[a, b], [c, d]] = identity2"
    by (simp add: invertMatrix2x2_def det2_def identity2_def Let_def)
next
  assume "\<not> \<bar>det2 [[a, b], [c, d]]\<bar> < 1 / 10 ^ 10"
  then have "\<not> \<bar>a * d - b * c\<bar> < 1 / 10 ^ 10" by (simp add: det2_def)
  then show "mult2 (invertMatrix2x2 [[a, b], [c, d]]) [[a, b], [c, d]] = identity2"
    and "mult2 [[a, b], [c, d]] (invertMatrix2x2 [[a, b], [c, d]]) = identity2"
    by (rule invert_regular)+
qed

theorem invertMatrix2x2_identity_or_inverse_witness:
  "\<bar>det2 [[1, 2], [2, 4]]\<bar> < 1 / 10 ^ 10 \<and> invertMatrix2x2 [[1, 2], [2, 4]] = identity2
   \<and> \<not> \<bar>det2 [[2, 1], [1, 1]]\<bar> < 1 / 10 ^ 10
   \<and> invertMatrix2x2 [[2, 1], [1, 1]] = [[1, - 1], [- 1, 2]]
   \<and> mult2 (invertMatrix2x2 [[2, 1], [1, 1]]) [[2, 1], [1, 1]] = identity2
   \<and> mult2 [[2, 1], [1, 1]] (invertMatrix2x2 [[2, 1], [1, 1]]) = identity2"
proof -
  have s: "\<bar>det2 [[1, 2], [2, 4]]\<bar> < 1 / 10 ^ 10" by (simp add: det2_def)
  have r: "\<not> \<bar>det2 [[2, 1], [1, 1]]\<bar> < 1 / 10 ^ 10" by (simp add: det2_def)
  have v: "invertMatrix2x2 [[2, 1], [1, 1]] = [[1, - 1], [- 1, 2]]"
    by (simp add: invertMatrix2x2_def Let_def)
  show ?thesis
    using s r v invertMatrix2x2_identity_or_inverse [of 1 2 2 4]
      invertMatrix2x2_identity_or_inverse [of 2 1 1 1]
    by blast
qed

lemma metric_form:
  "computeMetricTensor x y params h =
     [[1 + ((computeManifoldHeight (x + h) y params - computeManifoldHeight x y params) / h)\<^sup>2,
       ((computeManifoldHeight (x + h) y params - computeManifoldHeight x y params) / h)
        * ((computeManifoldHeight x (y + h) params - computeManifoldHeight x y params) / h)],
      [((computeManifoldHeight (x + h) y params - computeManifoldHeight x y params) / h)
        * ((computeManifoldHeight x (y + h) params - computeManifoldHeight x y params) / h),
       1 + ((computeManifoldHeight x (y + h) params - computeManifoldHeight x y params) / h)\<^sup>2]]"
  by (simp add: computeMetricTensor_def Let_def power2_eq_square)

lemma metric_det:
  "det2 [[1 + p\<^sup>2, p * q], [p * q, 1 + q\<^sup>2]] = 1 + p\<^sup>2 + q\<^sup>2"
  by (simp add: det2_def power2_eq_square algebra_simps)

text \<open>
  C10. For every point, parameter record and step \<open>h \<noteq> 0\<close>, the matrix returned by
  \<open>computeMetricTensor\<close> has determinant \<open>1 + z_x^2 + z_y^2\<close>, where \<open>z_x\<close> and \<open>z_y\<close> are
  the forward differences of the height; the determinant is at least 1, so
  \<open>invertMatrix2x2\<close> applied to the metric (as in \<open>computeChristoffelSymbol\<close>) does not take
  the fallback branch \<open>|det| < 1e-10\<close> and returns the inverse of the metric. (In the real
  model heights are always finite; \<open>h = 0\<close> is the one input where the source leaves the
  finite numbers.)
\<close>

theorem metric_determinant_ge_1_inverse_exact:
  assumes "h \<noteq> 0"
  shows "det2 (computeMetricTensor x y params h)
           = 1 + ((computeManifoldHeight (x + h) y params - computeManifoldHeight x y params) / h)\<^sup>2
               + ((computeManifoldHeight x (y + h) params - computeManifoldHeight x y params) / h)\<^sup>2
         \<and> det2 (computeMetricTensor x y params h) \<ge> 1
         \<and> \<not> \<bar>det2 (computeMetricTensor x y params h)\<bar> < 1 / 10 ^ 10
         \<and> mult2 (invertMatrix2x2 (computeMetricTensor x y params h)) (computeMetricTensor x y params h) = identity2
         \<and> mult2 (computeMetricTensor x y params h) (invertMatrix2x2 (computeMetricTensor x y params h)) = identity2"
proof -
  let ?p = "(computeManifoldHeight (x + h) y params - computeManifoldHeight x y params) / h"
  let ?q = "(computeManifoldHeight x (y + h) params - computeManifoldHeight x y params) / h"
  have d: "det2 (computeMetricTensor x y params h) = 1 + ?p\<^sup>2 + ?q\<^sup>2"
    unfolding metric_form by (rule metric_det)
  have ge: "1 + ?p\<^sup>2 + ?q\<^sup>2 \<ge> 1" by simp
  have ge': "1 \<le> det2 (computeMetricTensor x y params h)"
    unfolding d by (rule ge)
  have nf: "\<not> \<bar>det2 (computeMetricTensor x y params h)\<bar> < 1 / 10 ^ 10"
    using ge' by (rule ge_1_not_small)
  from nf have nf': "\<not> \<bar>(1 + ?p\<^sup>2) * (1 + ?q\<^sup>2) - (?p * ?q) * (?p * ?q)\<bar> < 1 / 10 ^ 10"
    unfolding metric_form by (simp add: det2_def)
  show ?thesis
    using d ge nf invert_regular [OF nf'] unfolding metric_form by simp
qed

theorem metric_determinant_ge_1_inverse_exact_witness:
  "(1 / 100 :: real) \<noteq> 0
   \<and> det2 (computeMetricTensor 0 0 angerParams (1 / 100)) \<ge> 1
   \<and> \<not> \<bar>det2 (computeMetricTensor 0 0 angerParams (1 / 100))\<bar> < 1 / 10 ^ 10
   \<and> mult2 (invertMatrix2x2 (computeMetricTensor 0 0 angerParams (1 / 100)))
        (computeMetricTensor 0 0 angerParams (1 / 100)) = identity2"
proof -
  have h: "(1 / 100 :: real) \<noteq> 0" by simp
  show ?thesis
    using h metric_determinant_ge_1_inverse_exact [OF h, of 0 0 angerParams] by blast
qed

section \<open>Fiber samples: theorems\<close>

text \<open>
  C8. For every base point and parameter record, \<open>computeFiberBundle\<close> returns exactly 21
  points, one for each \<open>i = 0..20\<close> in order; the \<open>i\<close>-th point lies over the base point
  and its height is \<open>computeManifoldHeight\<close> at the base point with \<open>W_p\<close> replaced by
  \<open>i/20\<close>, plus the offset \<open>(i/20 - 0.5) * 2\<close>.
\<close>

theorem fiber_bundle_21_samples:
  "length (computeFiberBundle base params) = 21
   \<and> computeFiberBundle base params
       = map (\<lambda>i. Vector3 (px base * 3) (py base * 3)
                     (computeManifoldHeight (px base) (py base) (params\<lparr>W_p := real i / 20\<rparr>)
                      + (real i / 20 - 0.5) * 2))
             [0 ..< 21]"
proof -
  have f: "fold (fiberPush base params) is acc
       = acc @ map (\<lambda>i. Vector3 (px base * 3) (py base * 3)
                     (computeManifoldHeight (px base) (py base) (params\<lparr>W_p := real i / 20\<rparr>)
                      + (real i / 20 - 0.5) * 2)) is" for "is" acc
    by (induction "is" arbitrary: acc) (simp_all add: fiberPush_def Let_def)
  have e: "computeFiberBundle base params
       = map (\<lambda>i. Vector3 (px base * 3) (py base * 3)
                     (computeManifoldHeight (px base) (py base) (params\<lparr>W_p := real i / 20\<rparr>)
                      + (real i / 20 - 0.5) * 2))
             [0 ..< 21]"
    unfolding computeFiberBundle_def f by simp
  show ?thesis unfolding e by simp
qed

section \<open>Computations that pass the cache: basic rules\<close>

lemma validI: "(\<And>c. I c \<Longrightarrow> \<exists>a c'. m c = (Inr a, c') \<and> I c' \<and> Q a) \<Longrightarrow> valid I m Q"
  by (simp add: valid_def)

lemma validD: "valid I m Q \<Longrightarrow> I c \<Longrightarrow> \<exists>a c'. m c = (Inr a, c') \<and> I c' \<and> Q a"
  by (simp add: valid_def)

lemma valid_ret: "Q a \<Longrightarrow> valid I (ret a) Q"
  by (simp add: valid_def ret_def)

lemma valid_bnd:
  assumes "valid I m Q" and "\<And>a. Q a \<Longrightarrow> valid I (f a) R"
  shows "valid I (bnd m f) R"
proof (rule validI)
  fix c assume "I c"
  with assms(1) obtain a c' where m: "m c = (Inr a, c')" and c': "I c'" and a: "Q a"
    by (auto dest: validD)
  from assms(2) [OF a] c' obtain b c'' where "f a c' = (Inr b, c'')" "I c''" "R b"
    by (auto dest: validD)
  with m show "\<exists>b c''. bnd m f c = (Inr b, c'') \<and> I c'' \<and> R b"
    by (simp add: bnd_def)
qed

lemma valid_weaken: "valid I m Q \<Longrightarrow> (\<And>a. Q a \<Longrightarrow> R a) \<Longrightarrow> valid I m R"
  unfolding valid_def by blast

lemma christoffel_miss:
  assumes "c (cacheKey i j k x y) = None" "i < 2" "j < 2" "k < 2"
  shows "computeChristoffelSymbol i j k x y params h c
     = (Inr (christoffelGamma i j k x y params h),
        c(cacheKey i j k x y \<mapsto> christoffelGamma i j k x y params h))"
  using assms by (simp add: computeChristoffelSymbol_def Let_def)

lemma christoffel_hit:
  assumes "c (cacheKey i j k x y) = Some v"
  shows "computeChristoffelSymbol i j k x y params h c = (Inr v, c)"
  using assms by (simp add: computeChristoffelSymbol_def Let_def)

lemma christoffel_other_key:
  assumes "cacheKey i j k x y \<noteq> K"
  shows "snd (computeChristoffelSymbol i j k x y params h c) K = c K"
  using assms by (simp add: computeChristoffelSymbol_def Let_def split: option.splits)

lemma runCall_other_key: "callKey q \<noteq> K \<Longrightarrow> snd (runCall q c) K = c K"
  by (cases q) (simp add: christoffel_other_key)

lemma christoffel_valid_any:
  assumes "i < 2" "j < 2" "k < 2"
  shows "valid anyCache (computeChristoffelSymbol i j k x y params h) (\<lambda>v. True)"
  using assms
  by (auto simp: valid_def anyCache_def computeChristoffelSymbol_def Let_def split: option.splits)

lemma six_christoffel_valid_any:
  assumes "\<And>Gxx Gxy Gyy Hxx Hxy Hyy. valid anyCache (f Gxx Gxy Gyy Hxx Hxy Hyy) R"
  shows "valid anyCache
     (bnd (computeChristoffelSymbol 0 0 0 x y params h) (\<lambda>Gxx.
      bnd (computeChristoffelSymbol 0 0 1 x y params h) (\<lambda>Gxy.
      bnd (computeChristoffelSymbol 0 1 1 x y params h) (\<lambda>Gyy.
      bnd (computeChristoffelSymbol 1 0 0 x y params h) (\<lambda>Hxx.
      bnd (computeChristoffelSymbol 1 0 1 x y params h) (\<lambda>Hxy.
      bnd (computeChristoffelSymbol 1 1 1 x y params h) (\<lambda>Hyy.
        f Gxx Gxy Gyy Hxx Hxy Hyy))))))) R"
  by (intro valid_bnd [where Q = "\<lambda>v. True"] christoffel_valid_any assms) simp_all




section \<open>Parallel transport: theorems\<close>

lemma transportLoop_valid_any:
  "valid anyCache (transportLoop params path Vv res)
     (\<lambda>out. length out = length res + (length path - 1)
           \<and> map position out = map position res @ butlast path)"
proof (induction path arbitrary: Vv res)
  case Nil
  show ?case by (simp add: valid_ret)
next
  case (Cons p1 tl)
  show ?case
  proof (cases tl)
    case Nil
    then show ?thesis by (simp add: valid_ret)
  next
    case (Cons p2 rest)
    have post: "length out = length res + (length (p1 # tl) - 1)
           \<and> map position out = map position res @ butlast (p1 # tl)"
      if "length out = length (res @ [\<lparr> position = p1, vector = w \<rparr>]) + (length tl - 1)
           \<and> map position out = map position (res @ [\<lparr> position = p1, vector = w \<rparr>]) @ butlast tl"
      for out w
      using that Cons by simp
    show ?thesis
      unfolding Cons transportLoop.simps Let_def
      by (rule six_christoffel_valid_any, rule valid_weaken [OF Cons.IH [unfolded Cons]])
         (rule post [unfolded Cons])
  qed
qed


text \<open>
  C6. For every initial vector, parameter record, path and cache, \<open>parallelTransport\<close>
  returns without error a list with one entry for each pair of consecutive path points, in
  path order: its length is the length of the path minus 1 (and 0 for the empty path), and
  the positions of its entries are the path points but the last.
\<close>

theorem parallelTransport_length:
  "\<exists>res c'. parallelTransport vec path params c = (Inr res, c')
     \<and> length res = length path - 1
     \<and> map position res = butlast path"
proof -
  have a: "anyCache c" by (simp add: anyCache_def)
  show ?thesis
    using validD [OF transportLoop_valid_any a, of params path "(v2x vec, v2y vec)" "[]"]
    unfolding parallelTransport_def by simp blast
qed


section \<open>The flat surface\<close>

lemma height_flat: "V params = 0 \<Longrightarrow> computeManifoldHeight x y params = 0"
  by (simp add: computeManifoldHeight_unfold computeHappiness_def computeSadness_def
      computeFear_def computeAnger_def computeWorry_def)

lemma upt_0_2: "[0 ..< 2] = [0, Suc 0]"
  by (simp add: numeral_2_eq_2)

lemma less_2_cases': "(n::nat) < 2 \<Longrightarrow> n = 0 \<or> n = Suc 0"
  by auto

lemma gamma_flat:
  assumes "V params = 0" "i < 2" "j < 2" "k < 2"
  shows "christoffelGamma i j k x y params h = 0"
  using less_2_cases' [OF assms(2)] less_2_cases' [OF assms(3)] less_2_cases' [OF assms(4)]
  by (auto simp add: christoffelGamma_def computeMetricDerivative_def computeMetricTensor_def
      height_flat [OF assms(1)] upt_0_2 Let_def)

lemma christoffel_valid_flat:
  assumes "V params = 0" "i < 2" "j < 2" "k < 2"
  shows "valid zeroCache (computeChristoffelSymbol i j k x y params h) (\<lambda>v. v = 0)"
proof (rule validI)
  fix c assume z: "zeroCache c"
  show "\<exists>a c'. computeChristoffelSymbol i j k x y params h c = (Inr a, c') \<and> zeroCache c' \<and> a = 0"
  proof (cases "c (cacheKey i j k x y)")
    case None
    have "zeroCache (c(cacheKey i j k x y \<mapsto> 0))"
      using z by (simp add: zeroCache_def)
    then show ?thesis
      using christoffel_miss [of c i j k x y params h] None assms(2-4) gamma_flat [OF assms, of x y h]
      by simp
  next
    case (Some v)
    then have "v = 0" using z unfolding zeroCache_def by blast
    then show ?thesis using christoffel_hit [of c i j k x y v params h] Some z by simp
  qed
qed

lemma six_christoffel_valid_flat:
  assumes "V params = 0" and "valid zeroCache (f 0 0 0 0 0 0) R"
  shows "valid zeroCache
     (bnd (computeChristoffelSymbol 0 0 0 x y params h) (\<lambda>Gxx.
      bnd (computeChristoffelSymbol 0 0 1 x y params h) (\<lambda>Gxy.
      bnd (computeChristoffelSymbol 0 1 1 x y params h) (\<lambda>Gyy.
      bnd (computeChristoffelSymbol 1 0 0 x y params h) (\<lambda>Hxx.
      bnd (computeChristoffelSymbol 1 0 1 x y params h) (\<lambda>Hxy.
      bnd (computeChristoffelSymbol 1 1 1 x y params h) (\<lambda>Hyy.
        f Gxx Gxy Gyy Hxx Hxy Hyy))))))) R"
  by (intro valid_bnd [where Q = "\<lambda>v. v = 0"] christoffel_valid_flat assms(1))
     (simp_all add: assms(2))






lemma flat_V: "V flatParams = 0"
  by (simp add: flatParams_def)




section \<open>The geodesic integrator: theorems\<close>









section \<open>The Christoffel cache: theorems\<close>

lemma height_anger:
  "computeManifoldHeight x y angerParams = 7 * tanh (3.5 * max (x - y) 0) / (15 + 1 / 10 ^ 9)"
  by (simp add: computeManifoldHeight_unfold computeHappiness_def computeSadness_def
      computeFear_def computeAnger_def computeWorry_def angerParams_def)

lemma invert_diag: "1 \<le> p \<Longrightarrow> invertMatrix2x2 [[p, 0], [0, 1]] = [[1 / p, 0], [0, 1]]"
  using ge_1_not_small [of p] by (simp add: invertMatrix2x2_def Let_def)


text \<open>
  The connection coefficient where the surface is a ridge: the heights at the sample
  points are 0 except at \<open>x + h\<close> and \<open>x + 2h\<close>.
\<close>

lemma gamma_ridge:
  assumes "computeManifoldHeight x y params = 0"
    and "computeManifoldHeight (x + h) y params = a"
    and "computeManifoldHeight x (y + h) params = 0"
    and "computeManifoldHeight (x + h + h) y params = b"
    and "computeManifoldHeight (x + h) (y + h) params = 0"
    and "computeManifoldHeight x (y + h + h) params = 0"
  shows "christoffelGamma 0 0 1 x y params h = - ((a / h)\<^sup>2 / (2 * h * (1 + (a / h)\<^sup>2)))"
    and "christoffelGamma 0 1 0 x y params h = - ((a / h)\<^sup>2 / (2 * h * (1 + (a / h)\<^sup>2)))"
proof -
  define q where "q = 1 + (a / h)\<^sup>2"
  have q1: "1 \<le> q" by (simp add: q_def)
  have g0: "computeMetricTensor x y params h = [[q, 0], [0, 1]]"
    unfolding computeMetricTensor_def Let_def assms q_def by (simp add: power2_eq_square)
  have gy: "computeMetricTensor x (y + h) params h = [[1, 0], [0, 1]]"
    unfolding computeMetricTensor_def Let_def assms by simp
  obtain u v w where gx: "computeMetricTensor (x + h) y params h = [[u, v], [v, w]]"
    by (simp add: computeMetricTensor_def Let_def)
  have inv: "invertMatrix2x2 (computeMetricTensor x y params h) = [[1 / q, 0], [0, 1]]"
    unfolding g0 by (rule invert_diag [OF q1])
  have dx: "computeMetricDerivative x y params h DirX = [[(u - q) / h, v / h], [v / h, (w - 1) / h]]"
    unfolding computeMetricDerivative_def Let_def g0 gx by simp
  have dy: "computeMetricDerivative x y params h DirY = [[(1 - q) / h, 0], [0, 0]]"
    unfolding computeMetricDerivative_def Let_def g0 gy by simp
  have e: "(1 - q) / (2 * h * q) = - ((a / h)\<^sup>2 / (2 * h * (1 + (a / h)\<^sup>2)))"
    unfolding q_def by simp
  have "christoffelGamma 0 0 1 x y params h = (1 - q) / (2 * h * q)"
    unfolding christoffelGamma_def Let_def inv dx dy upt_0_2 by simp
  then show "christoffelGamma 0 0 1 x y params h = - ((a / h)\<^sup>2 / (2 * h * (1 + (a / h)\<^sup>2)))"
    unfolding e .
  have "christoffelGamma 0 1 0 x y params h = (1 - q) / (2 * h * q)"
    unfolding christoffelGamma_def Let_def inv dx dy upt_0_2 by simp
  then show "christoffelGamma 0 1 0 x y params h = - ((a / h)\<^sup>2 / (2 * h * (1 + (a / h)\<^sup>2)))"
    unfolding e .
qed

lemma ridge_neg:
  assumes "a \<noteq> 0" "h > 0"
  shows "- ((a / h)\<^sup>2 / (2 * h * (1 + (a / h)\<^sup>2))) < (0::real)"
proof -
  have "(a / h)\<^sup>2 > 0" using assms by simp
  moreover have "2 * h * (1 + (a / h)\<^sup>2) > 0"
    using assms by (simp add: add_pos_nonneg)
  ultimately have "(a / h)\<^sup>2 / (2 * h * (1 + (a / h)\<^sup>2)) > 0" by (rule divide_pos_pos)
  then show ?thesis by simp
qed

lemma tanh_lower: assumes "0 \<le> (u::real)" shows "u / (1 + u) \<le> tanh u"
proof -
  define E where "E = exp (- 2 * u)"
  have Epos: "E > 0" by (simp add: E_def)
  have "exp (2 * u) \<ge> 1 + 2 * u" using exp_ge_add_one_self [of "2 * u"] by simp
  moreover have "E = 1 / exp (2 * u)" by (simp add: E_def exp_minus field_simps)
  ultimately have Eup: "E \<le> 1 / (1 + 2 * u)"
    using assms by (simp add: frac_le)
  have t: "tanh u = (1 - E) / (1 + E)"
    by (simp add: tanh_real_altdef E_def)
  have "E * (1 + 2 * u) \<le> 1" using Eup assms by (simp add: field_simps)
  then have "u * (1 + E) \<le> (1 - E) * (1 + u)" by (simp add: algebra_simps)
  then have "u / (1 + u) \<le> (1 - E) / (1 + E)"
    using Epos assms by (simp add: field_simps)
  then show ?thesis by (simp add: t)
qed

lemma derivative_symmetric:
  "\<exists>a b c. computeMetricDerivative x y params h d = [[a, b], [b, c]]"
  by (simp add: computeMetricDerivative_def metric_form Let_def)

lemma gamma_symmetric: "christoffelGamma i 0 1 x y params h = christoffelGamma i 1 0 x y params h"
proof -
  obtain a b c where dx: "computeMetricDerivative x y params h DirX = [[a, b], [b, c]]"
    using derivative_symmetric by blast
  obtain a' b' c' where dy: "computeMetricDerivative x y params h DirY = [[a', b'], [b', c']]"
    using derivative_symmetric by blast
  show ?thesis
    unfolding christoffelGamma_def Let_def dx dy upt_0_2 by simp
qed

lemma cacheAfter_runCalls: "cacheAfter calls = runCalls calls Map.empty"
  by (simp add: cacheAfter_def runCalls_def)

lemma runCalls_Nil: "runCalls [] c = c"
  by (simp add: runCalls_def)

lemma runCalls_Cons: "runCalls (q # calls) c = runCalls calls (snd (runCall q c))"
  by (simp add: runCalls_def)

lemma key_indices:
  assumes "callKey q = cacheKey i j k x y"
  shows "\<exists>x' y' params' h'. q = Call i j k x' y' params' h'"
  using assms by (cases q) (simp add: cacheKey_def)

lemma christoffel_persist:
  assumes "c K = Some v"
  shows "snd (computeChristoffelSymbol i j k x y params h c) K = Some v"
  using assms by (auto simp: computeChristoffelSymbol_def Let_def split: option.splits)

lemma runCall_persist: "c K = Some v \<Longrightarrow> snd (runCall q c) K = Some v"
  by (cases q) (simp add: christoffel_persist)

lemma runCalls_persist: "c K = Some v \<Longrightarrow> runCalls calls c K = Some v"
  by (induction calls arbitrary: c) (simp_all add: runCalls_Nil runCalls_Cons runCall_persist)

lemma christoffel_out_of_range:
  assumes "c (cacheKey i j k x y) = None" "\<not> (i < 2 \<and> j < 2 \<and> k < 2)"
  shows "computeChristoffelSymbol i j k x y params h c = (Inl TypeError, c)"
  using assms by (simp add: computeChristoffelSymbol_def Let_def)

lemma runCall_absent_out_of_range:
  assumes "c (cacheKey i j k x y) = None" "\<not> (i < 2 \<and> j < 2 \<and> k < 2)"
  shows "snd (runCall q c) (cacheKey i j k x y) = None"
proof (cases "callKey q = cacheKey i j k x y")
  case False
  then show ?thesis using assms(1) by (simp add: runCall_other_key)
next
  case True
  then obtain x' y' params' h' where q: "q = Call i j k x' y' params' h'"
    using key_indices by blast
  from True have k: "cacheKey i j k x' y' = cacheKey i j k x y" by (simp add: q)
  have "computeChristoffelSymbol i j k x' y' params' h' c = (Inl TypeError, c)"
    using assms k by (simp add: computeChristoffelSymbol_def Let_def)
  then show ?thesis using assms(1) by (simp add: q)
qed

lemma runCalls_absent_out_of_range:
  assumes "\<not> (i < 2 \<and> j < 2 \<and> k < 2)"
  shows "c (cacheKey i j k x y) = None \<Longrightarrow> runCalls calls c (cacheKey i j k x y) = None"
  by (induction calls arbitrary: c)
     (simp_all add: runCalls_Nil runCalls_Cons runCall_absent_out_of_range [OF _ assms])

lemma runCall_same_key:
  assumes "c (cacheKey i j k x y) = None" "i < 2" "j < 2" "k < 2" "callKey q = cacheKey i j k x y"
  shows "snd (runCall q c) (cacheKey i j k x y) = Some (freshValue q)"
proof -
  obtain x' y' params' h' where q: "q = Call i j k x' y' params' h'"
    using key_indices [OF assms(5)] by blast
  from assms(5) have k: "cacheKey i j k x' y' = cacheKey i j k x y" by (simp add: q)
  have "c (cacheKey i j k x' y') = None" using assms(1) k by simp
  then have "computeChristoffelSymbol i j k x' y' params' h' c
     = (Inr (christoffelGamma i j k x' y' params' h'),
        c(cacheKey i j k x' y' \<mapsto> christoffelGamma i j k x' y' params' h'))"
    using assms(2-4) by (simp add: computeChristoffelSymbol_def Let_def)
  then show ?thesis by (simp add: q k)
qed

lemma runCalls_first:
  assumes "i < 2" "j < 2" "k < 2"
  shows "c (cacheKey i j k x y) = None \<Longrightarrow>
     runCalls calls c (cacheKey i j k x y)
       = map_option freshValue (find (\<lambda>q. callKey q = cacheKey i j k x y) calls)"
proof (induction calls arbitrary: c)
  case Nil
  then show ?case by (simp add: runCalls_Nil)
next
  case (Cons q calls)
  show ?case
  proof (cases "callKey q = cacheKey i j k x y")
    case True
    have "snd (runCall q c) (cacheKey i j k x y) = Some (freshValue q)"
      by (rule runCall_same_key [of c i j k x y q, OF Cons.prems assms True])
    then have "runCalls calls (snd (runCall q c)) (cacheKey i j k x y) = Some (freshValue q)"
      by (rule runCalls_persist)
    then show ?thesis using True by (simp add: runCalls_Cons)
  next
    case False
    then have "snd (runCall q c) (cacheKey i j k x y) = None"
      using Cons.prems by (simp add: runCall_other_key)
    from Cons.IH [of "snd (runCall q c)", OF this] show ?thesis using False by (simp add: runCalls_Cons)
  qed
qed

lemma served_by_history:
  assumes "i < 2" "j < 2" "k < 2"
  shows "fst (computeChristoffelSymbol i j k x y params h (cacheAfter calls))
           = Inr (servedValue calls (Call i j k x y params h))"
proof -
  have e: "(Map.empty :: cache) (cacheKey i j k x y) = None" by simp
  note f = runCalls_first [OF assms e, of calls, folded cacheAfter_runCalls]
  show ?thesis
  proof (cases "find (\<lambda>q. callKey q = cacheKey i j k x y) calls")
    case None
    then have "cacheAfter calls (cacheKey i j k x y) = None" using f by simp
    then show ?thesis
      using None assms by (simp add: computeChristoffelSymbol_def Let_def servedValue_def)
  next
    case (Some q)
    then have "cacheAfter calls (cacheKey i j k x y) = Some (freshValue q)" using f by simp
    then show ?thesis
      using Some by (simp add: computeChristoffelSymbol_def Let_def servedValue_def)
  qed
qed

lemma cacheAfter_snoc:
  "snd (computeChristoffelSymbol i j k x y params h (cacheAfter calls))
     = cacheAfter (calls @ [Call i j k x y params h])"
  by (simp add: cacheAfter_def)

lemma find_snoc_other: "\<not> Q q \<Longrightarrow> find Q (qs @ [q]) = find Q qs"
  by (induction qs) simp_all

lemma servedValue_snoc_other:
  "callKey q' \<noteq> callKey q \<Longrightarrow> servedValue (calls @ [q']) q = servedValue calls q"
  by (simp add: servedValue_def find_snoc_other)

lemma served_own:
  assumes "\<forall>q' \<in> set calls. callKey q' = callKey q \<longrightarrow> q' = q"
  shows "servedValue calls q = freshValue q"
proof (cases "find (\<lambda>q'. callKey q' = callKey q) calls")
  case None
  then show ?thesis by (simp add: servedValue_def)
next
  case (Some q')
  then have "q' \<in> set calls" "callKey q' = callKey q"
    by (auto simp: find_Some_iff in_set_conv_nth)
  with assms have "q' = q" by blast
  with Some show ?thesis by (simp add: servedValue_def)
qed


lemma cacheAfter_single:
  assumes "i < 2" "j < 2" "k < 2"
  shows "cacheAfter [Call i j k x y params h]
     = [cacheKey i j k x y \<mapsto> christoffelGamma i j k x y params h]"
  by (simp add: cacheAfter_def christoffel_miss assms)

lemma gamma_cell_left: "christoffelGamma 0 0 1 0 (51 / 5000) angerParams (1 / 100) = 0"
  and gamma_cell_left': "christoffelGamma 0 1 0 0 (51 / 5000) angerParams (1 / 100) = 0"
proof -
  have h: "computeManifoldHeight 0 (51 / 5000) angerParams = 0"
      "computeManifoldHeight (0 + 1 / 100) (51 / 5000) angerParams = 0"
      "computeManifoldHeight 0 (51 / 5000 + 1 / 100) angerParams = 0"
      "computeManifoldHeight (0 + 1 / 100) (51 / 5000 + 1 / 100) angerParams = 0"
      "computeManifoldHeight 0 (51 / 5000 + 1 / 100 + 1 / 100) angerParams = 0"
    by (simp_all add: height_anger)
  show "christoffelGamma 0 0 1 0 (51 / 5000) angerParams (1 / 100) = 0"
    using gamma_ridge(1) [OF h(1) h(2) h(3) refl h(4) h(5)] by simp
  show "christoffelGamma 0 1 0 0 (51 / 5000) angerParams (1 / 100) = 0"
    using gamma_ridge(2) [OF h(1) h(2) h(3) refl h(4) h(5)] by simp
qed

lemma gamma_cell_right: "christoffelGamma 0 0 1 (1 / 2500) (51 / 5000) angerParams (1 / 100) < 0"
proof -
  have h: "computeManifoldHeight (1 / 2500) (51 / 5000) angerParams = 0"
      "computeManifoldHeight (1 / 2500) (51 / 5000 + 1 / 100) angerParams = 0"
      "computeManifoldHeight (1 / 2500 + 1 / 100) (51 / 5000 + 1 / 100) angerParams = 0"
      "computeManifoldHeight (1 / 2500) (51 / 5000 + 1 / 100 + 1 / 100) angerParams = 0"
    by (simp_all add: height_anger)
  have a: "computeManifoldHeight (1 / 2500 + 1 / 100) (51 / 5000) angerParams \<noteq> 0"
    by (simp add: height_anger)
  show ?thesis
    unfolding gamma_ridge(1) [OF h(1) refl h(2) refl h(3) h(4)]
    by (rule ridge_neg [OF a]) simp
qed

lemma gamma_anger_origin: "christoffelGamma 0 0 1 0 0 angerParams (1 / 100) < - 1"
proof -
  have h: "computeManifoldHeight 0 0 angerParams = 0"
      "computeManifoldHeight 0 (0 + 1 / 100) angerParams = 0"
      "computeManifoldHeight (0 + 1 / 100) (0 + 1 / 100) angerParams = 0"
      "computeManifoldHeight 0 (0 + 1 / 100 + 1 / 100) angerParams = 0"
    by (simp_all add: height_anger)
  define a where "a = computeManifoldHeight (0 + 1 / 100) 0 angerParams"
  have a: "a = 7 * tanh (7 / 200) / (15 + 1 / 10 ^ 9)"
    by (simp add: a_def height_anger)
  have t: "7 / 207 \<le> tanh (7 / 200 :: real)"
    using tanh_lower [of "7 / 200"] by simp
  have "(15 + 1 / 10 ^ 9) / 700 < 7 * tanh (7 / 200 :: real)"
    using t by simp
  then have big: "1 / 700 < a"
    unfolding a by (simp add: field_simps)
  define r where "r = a / (1 / 100)"
  have "1 / 7 < r" using big by (simp add: r_def)
  then have "(1 / 7) * (1 / 7) < r * r"
    by (intro mult_strict_mono) simp_all
  then have r2: "1 / 49 < r\<^sup>2" by (simp add: power2_eq_square)
  have den: "0 < 2 * (1 / 100) * (1 + r\<^sup>2)" by (simp add: add_pos_nonneg)
  have "2 * (1 / 100) * (1 + r\<^sup>2) < r\<^sup>2" using r2 by simp
  then have "1 < r\<^sup>2 / (2 * (1 / 100) * (1 + r\<^sup>2))"
    using den by (simp only: less_divide_eq_1_pos)
  then have "- (r\<^sup>2 / (2 * (1 / 100) * (1 + r\<^sup>2))) < - 1" by simp
  then show ?thesis
    unfolding gamma_ridge(1) [OF h(1) refl h(2) refl h(3) h(4)] r_def a_def .
qed


text \<open>
  C1 (amended). Repeated calls with identical inputs return identical results: from every
  cache, and whatever calls are made in between, the second call returns what the first
  returned. For indices below 2 and every history of calls on a manifold object, the call
  returns the value a fresh computation would, provided the earliest call of the history
  under the same cache key \<open>(i, j, k, x.toFixed(3), y.toFixed(3))\<close>, if there is one,
  computed that same value, as it does when it was this very call. Calls under other keys,
  and later calls under the same key, never change the result. Nothing is said of the case
  where the earliest call under the key computed another value.
\<close>

theorem christoffel_repeatable_and_fresh_after_first_use:
  "fst (computeChristoffelSymbol i j k x y params h
          (runCalls between (snd (computeChristoffelSymbol i j k x y params h c))))
     = fst (computeChristoffelSymbol i j k x y params h c)
   \<and> (i < 2 \<and> j < 2 \<and> k < 2
        \<and> (\<forall>q. find (\<lambda>q. callKey q = cacheKey i j k x y) calls = Some q
                 \<longrightarrow> freshValue q = christoffelGamma i j k x y params h)
      \<longrightarrow> fst (computeChristoffelSymbol i j k x y params h (cacheAfter calls))
            = Inr (christoffelGamma i j k x y params h))"
proof (intro conjI impI)
  let ?K = "cacheKey i j k x y"
  let ?c1 = "snd (computeChristoffelSymbol i j k x y params h c)"
  show "fst (computeChristoffelSymbol i j k x y params h (runCalls between ?c1))
     = fst (computeChristoffelSymbol i j k x y params h c)"
  proof (cases "c ?K")
    case (Some v)
    then have r: "computeChristoffelSymbol i j k x y params h c = (Inr v, c)"
      by (rule christoffel_hit)
    have "runCalls between c ?K = Some v" using Some by (rule runCalls_persist)
    then have "computeChristoffelSymbol i j k x y params h (runCalls between c)
        = (Inr v, runCalls between c)"
      by (rule christoffel_hit)
    then show ?thesis by (simp add: r)
  next
    case None
    show ?thesis
    proof (cases "i < 2 \<and> j < 2 \<and> k < 2")
      case True
      let ?g = "christoffelGamma i j k x y params h"
      have r: "computeChristoffelSymbol i j k x y params h c = (Inr ?g, c(?K \<mapsto> ?g))"
        using None True by (simp add: computeChristoffelSymbol_def Let_def)
      have "runCalls between (c(?K \<mapsto> ?g)) ?K = Some ?g"
        by (rule runCalls_persist) simp
      then have "computeChristoffelSymbol i j k x y params h (runCalls between (c(?K \<mapsto> ?g)))
          = (Inr ?g, runCalls between (c(?K \<mapsto> ?g)))"
        by (rule christoffel_hit)
      then show ?thesis by (simp add: r)
    next
      case False
      have r: "computeChristoffelSymbol i j k x y params h c = (Inl TypeError, c)"
        by (rule christoffel_out_of_range [of c i j k x y, OF None False])
      have "runCalls between c ?K = None"
        by (rule runCalls_absent_out_of_range [where c = c and calls = between, OF False None])
      then have "computeChristoffelSymbol i j k x y params h (runCalls between c)
          = (Inl TypeError, runCalls between c)"
        using False by (simp add: computeChristoffelSymbol_def Let_def)
      then show ?thesis by (simp add: r)
    qed
  qed
next
  assume a: "i < 2 \<and> j < 2 \<and> k < 2
        \<and> (\<forall>q. find (\<lambda>q. callKey q = cacheKey i j k x y) calls = Some q
                 \<longrightarrow> freshValue q = christoffelGamma i j k x y params h)"
  then have s: "servedValue calls (Call i j k x y params h) = christoffelGamma i j k x y params h"
    by (auto simp: servedValue_def split: option.splits)
  show "fst (computeChristoffelSymbol i j k x y params h (cacheAfter calls))
            = Inr (christoffelGamma i j k x y params h)"
    using served_by_history [of i j k x y params h calls] a s by simp
qed


text \<open>
  An instance: the call at \<open>x = 0\<close>, then a call at \<open>x = 0.0004\<close> under the same key, then
  the call at \<open>x = 0\<close> again, which still returns the value of the fresh computation.
\<close>

theorem christoffel_repeatable_and_fresh_after_first_use_witness:
  "(0::nat) < 2 \<and> (1::nat) < 2
   \<and> callKey (Call 0 0 1 (1 / 2500) (51 / 5000) angerParams (1 / 100)) = cacheKey 0 0 1 0 (51 / 5000)
   \<and> find (\<lambda>q. callKey q = cacheKey 0 0 1 0 (51 / 5000))
        [Call 0 0 1 0 (51 / 5000) angerParams (1 / 100),
         Call 0 0 1 (1 / 2500) (51 / 5000) angerParams (1 / 100)]
       = Some (Call 0 0 1 0 (51 / 5000) angerParams (1 / 100))
   \<and> fst (computeChristoffelSymbol 0 0 1 0 (51 / 5000) angerParams (1 / 100)
           (cacheAfter [Call 0 0 1 0 (51 / 5000) angerParams (1 / 100),
                        Call 0 0 1 (1 / 2500) (51 / 5000) angerParams (1 / 100)]))
       = Inr (christoffelGamma 0 0 1 0 (51 / 5000) angerParams (1 / 100))
   \<and> fst (computeChristoffelSymbol 0 0 1 0 (51 / 5000) angerParams (1 / 100)
           (runCalls [Call 0 0 1 (1 / 2500) (51 / 5000) angerParams (1 / 100)]
              (snd (computeChristoffelSymbol 0 0 1 0 (51 / 5000) angerParams (1 / 100) Map.empty))))
       = fst (computeChristoffelSymbol 0 0 1 0 (51 / 5000) angerParams (1 / 100) Map.empty)"
proof -
  let ?q = "Call 0 0 1 0 (51 / 5000) angerParams (1 / 100)"
  let ?q' = "Call 0 0 1 (1 / 2500) (51 / 5000) angerParams (1 / 100)"
  have i: "(0::nat) < 2" "(1::nat) < 2" by simp_all
  have k: "callKey ?q' = cacheKey 0 0 1 0 (51 / 5000)"
    by (simp add: cacheKey_def toFixed3_def)
  have f: "find (\<lambda>q. callKey q = cacheKey 0 0 1 0 (51 / 5000)) [?q, ?q'] = Some ?q"
    by simp
  have h: "\<forall>q. find (\<lambda>q. callKey q = cacheKey 0 0 1 0 (51 / 5000)) [?q, ?q'] = Some q
             \<longrightarrow> freshValue q = christoffelGamma 0 0 1 0 (51 / 5000) angerParams (1 / 100)"
    unfolding f by simp
  note t = christoffel_repeatable_and_fresh_after_first_use
    [where i = 0 and j = 0 and k = 1 and x = 0 and y = "51 / 5000" and params = angerParams
       and h = "1 / 100" and calls = "[?q, ?q']" and between = "[?q']" and c = Map.empty]
  show ?thesis
    using t i k f h by blast
qed


text \<open>
  As worded the claim fails where two positions share a key. The positions \<open>x = 0.0004\<close>
  and \<open>x = 0\<close> round to the same three decimals. After one call at \<open>x = 0.0004\<close>, the
  call at \<open>x = 0\<close> with the same parameters and the same step returns the value stored
  for \<open>0.0004\<close>, which is negative, where the fresh computation at \<open>x = 0\<close> returns 0.
\<close>

theorem cache_cell_counterexample:
  "cacheKey 0 0 1 (1 / 2500) (51 / 5000) = cacheKey 0 0 1 0 (51 / 5000)
   \<and> fst (computeChristoffelSymbol 0 0 1 0 (51 / 5000) angerParams (1 / 100) Map.empty) = Inr 0
   \<and> fst (computeChristoffelSymbol 0 0 1 0 (51 / 5000) angerParams (1 / 100)
           (cacheAfter [Call 0 0 1 (1 / 2500) (51 / 5000) angerParams (1 / 100)]))
       = Inr (christoffelGamma 0 0 1 (1 / 2500) (51 / 5000) angerParams (1 / 100))
   \<and> christoffelGamma 0 0 1 (1 / 2500) (51 / 5000) angerParams (1 / 100) < 0
   \<and> fst (computeChristoffelSymbol 0 0 1 0 (51 / 5000) angerParams (1 / 100)
           (cacheAfter [Call 0 0 1 (1 / 2500) (51 / 5000) angerParams (1 / 100)]))
       \<noteq> fst (computeChristoffelSymbol 0 0 1 0 (51 / 5000) angerParams (1 / 100) Map.empty)"
proof -
  have k: "cacheKey 0 0 1 (1 / 2500) (51 / 5000) = cacheKey 0 0 1 0 (51 / 5000)"
    by (simp add: cacheKey_def toFixed3_def)
  have f: "fst (computeChristoffelSymbol 0 0 1 0 (51 / 5000) angerParams (1 / 100) Map.empty) = Inr 0"
    using christoffel_miss [of Map.empty 0 0 1 0 "51 / 5000" angerParams "1 / 100"] gamma_cell_left
    by simp
  have s: "fst (computeChristoffelSymbol 0 0 1 0 (51 / 5000) angerParams (1 / 100)
           (cacheAfter [Call 0 0 1 (1 / 2500) (51 / 5000) angerParams (1 / 100)]))
       = Inr (christoffelGamma 0 0 1 (1 / 2500) (51 / 5000) angerParams (1 / 100))"
    using christoffel_hit [of "cacheAfter [Call 0 0 1 (1 / 2500) (51 / 5000) angerParams (1 / 100)]"
        0 0 1 0 "51 / 5000" "christoffelGamma 0 0 1 (1 / 2500) (51 / 5000) angerParams (1 / 100)"
        angerParams "1 / 100"]
      cacheAfter_single [of 0 0 1 "1 / 2500" "51 / 5000" angerParams "1 / 100"] k
    by simp
  show ?thesis
    using k f s gamma_cell_right by simp
qed


text \<open>
  C2 (amended). The value computed on a cache miss is symmetric in the lower index pair,
  for every \<open>i\<close>, point, parameter record and step. For \<open>i\<close> below 2 and every history of
  calls on a manifold object, the calls for \<open>(i, 0, 1)\<close> and \<open>(i, 1, 0)\<close>, made one after
  the other in either order, return the same value without error whenever the values the
  history serves under their two keys agree. They agree in particular when every earlier
  call under either key was that very call: on a new object, and after the calls for
  \<open>(i, 0, 1)\<close> alone that the geodesic and transport methods make.
\<close>

theorem christoffel_symmetric_when_served_values_agree:
  "christoffelGamma i 0 1 x y params h = christoffelGamma i 1 0 x y params h
   \<and> (i < 2 \<and> servedValue calls (Call i 0 1 x y params h) = servedValue calls (Call i 1 0 x y params h)
      \<longrightarrow> (\<exists>v. fst (computeChristoffelSymbol i 0 1 x y params h (cacheAfter calls)) = Inr v)
          \<and> fst (computeChristoffelSymbol i 1 0 x y params h
                   (snd (computeChristoffelSymbol i 0 1 x y params h (cacheAfter calls))))
              = fst (computeChristoffelSymbol i 0 1 x y params h (cacheAfter calls))
          \<and> fst (computeChristoffelSymbol i 0 1 x y params h
                   (snd (computeChristoffelSymbol i 1 0 x y params h (cacheAfter calls))))
              = fst (computeChristoffelSymbol i 1 0 x y params h (cacheAfter calls)))
   \<and> (i < 2 \<and> (\<forall>q \<in> set calls.
                  (callKey q = cacheKey i 0 1 x y \<longrightarrow> q = Call i 0 1 x y params h)
                  \<and> (callKey q = cacheKey i 1 0 x y \<longrightarrow> q = Call i 1 0 x y params h))
      \<longrightarrow> servedValue calls (Call i 0 1 x y params h) = servedValue calls (Call i 1 0 x y params h))"
proof (intro conjI impI)
  show sym: "christoffelGamma i 0 1 x y params h = christoffelGamma i 1 0 x y params h"
    by (rule gamma_symmetric)
  {
    assume a: "i < 2 \<and> servedValue calls (Call i 0 1 x y params h) = servedValue calls (Call i 1 0 x y params h)"
    then have i: "i < 2" and s: "servedValue calls (Call i 0 1 x y params h) = servedValue calls (Call i 1 0 x y params h)"
      by simp_all
    have ne: "callKey (Call i 0 1 x y params h) \<noteq> callKey (Call i 1 0 x y params h)"
      by (simp add: cacheKey_def)
    have r01: "fst (computeChristoffelSymbol i 0 1 x y params h (cacheAfter calls))
        = Inr (servedValue calls (Call i 0 1 x y params h))"
      by (rule served_by_history) (use i in simp_all)
    have r10: "fst (computeChristoffelSymbol i 1 0 x y params h (cacheAfter calls))
        = Inr (servedValue calls (Call i 1 0 x y params h))"
      by (rule served_by_history) (use i in simp_all)
    have r10': "fst (computeChristoffelSymbol i 1 0 x y params h
                   (snd (computeChristoffelSymbol i 0 1 x y params h (cacheAfter calls))))
        = Inr (servedValue calls (Call i 1 0 x y params h))"
      unfolding cacheAfter_snoc
      using served_by_history [of i 1 0 x y params h "calls @ [Call i 0 1 x y params h]"] i
        servedValue_snoc_other [OF ne, of calls]
      by simp
    have r01': "fst (computeChristoffelSymbol i 0 1 x y params h
                   (snd (computeChristoffelSymbol i 1 0 x y params h (cacheAfter calls))))
        = Inr (servedValue calls (Call i 0 1 x y params h))"
      unfolding cacheAfter_snoc
      using served_by_history [of i 0 1 x y params h "calls @ [Call i 1 0 x y params h]"] i
        servedValue_snoc_other [OF ne [symmetric], of calls]
      by simp
    show "\<exists>v. fst (computeChristoffelSymbol i 0 1 x y params h (cacheAfter calls)) = Inr v"
      using r01 by blast
    show "fst (computeChristoffelSymbol i 1 0 x y params h
                   (snd (computeChristoffelSymbol i 0 1 x y params h (cacheAfter calls))))
              = fst (computeChristoffelSymbol i 0 1 x y params h (cacheAfter calls))"
      unfolding r10' r01 s ..
    show "fst (computeChristoffelSymbol i 0 1 x y params h
                   (snd (computeChristoffelSymbol i 1 0 x y params h (cacheAfter calls))))
              = fst (computeChristoffelSymbol i 1 0 x y params h (cacheAfter calls))"
      unfolding r01' r10 s ..
  }
  {
    assume b: "i < 2 \<and> (\<forall>q \<in> set calls.
                  (callKey q = cacheKey i 0 1 x y \<longrightarrow> q = Call i 0 1 x y params h)
                  \<and> (callKey q = cacheKey i 1 0 x y \<longrightarrow> q = Call i 1 0 x y params h))"
    have "servedValue calls (Call i 0 1 x y params h) = freshValue (Call i 0 1 x y params h)"
      by (rule served_own) (use b in simp)
    moreover have "servedValue calls (Call i 1 0 x y params h) = freshValue (Call i 1 0 x y params h)"
      by (rule served_own) (use b in simp)
    ultimately show "servedValue calls (Call i 0 1 x y params h) = servedValue calls (Call i 1 0 x y params h)"
      using sym by simp
  }
qed


text \<open>
  An instance: after one call for \<open>(0, 0, 1)\<close> at the origin the cache holds an entry
  under the first key and none under the second, and the two calls return the same value.
\<close>

theorem christoffel_symmetric_when_served_values_agree_witness:
  "(0::nat) < 2
   \<and> callKey (Call 0 0 1 0 0 angerParams (1 / 100)) = cacheKey 0 0 1 0 0
   \<and> callKey (Call 0 0 1 0 0 angerParams (1 / 100)) \<noteq> cacheKey 0 1 0 0 0
   \<and> servedValue [Call 0 0 1 0 0 angerParams (1 / 100)] (Call 0 0 1 0 0 angerParams (1 / 100))
       = servedValue [Call 0 0 1 0 0 angerParams (1 / 100)] (Call 0 1 0 0 0 angerParams (1 / 100))
   \<and> cacheAfter [Call 0 0 1 0 0 angerParams (1 / 100)] (cacheKey 0 0 1 0 0)
       \<noteq> cacheAfter [Call 0 0 1 0 0 angerParams (1 / 100)] (cacheKey 0 1 0 0 0)
   \<and> fst (computeChristoffelSymbol 0 1 0 0 0 angerParams (1 / 100)
           (snd (computeChristoffelSymbol 0 0 1 0 0 angerParams (1 / 100)
                  (cacheAfter [Call 0 0 1 0 0 angerParams (1 / 100)]))))
       = fst (computeChristoffelSymbol 0 0 1 0 0 angerParams (1 / 100)
                (cacheAfter [Call 0 0 1 0 0 angerParams (1 / 100)]))"
proof -
  let ?q = "Call 0 0 1 0 0 angerParams (1 / 100)"
  have i: "(0::nat) < 2" by simp
  have k: "callKey ?q = cacheKey 0 0 1 0 0" "callKey ?q \<noteq> cacheKey 0 1 0 0 0"
    by (simp_all add: cacheKey_def)
  have own: "\<forall>q \<in> set [?q].
                  (callKey q = cacheKey 0 0 1 0 0 \<longrightarrow> q = Call 0 0 1 0 0 angerParams (1 / 100))
                  \<and> (callKey q = cacheKey 0 1 0 0 0 \<longrightarrow> q = Call 0 1 0 0 0 angerParams (1 / 100))"
    using k by simp
  have c: "cacheAfter [?q] (cacheKey 0 0 1 0 0) \<noteq> cacheAfter [?q] (cacheKey 0 1 0 0 0)"
    using cacheAfter_single [of 0 0 1 0 0 angerParams "1 / 100"] by (simp add: cacheKey_def)
  note t = christoffel_symmetric_when_served_values_agree
    [where i = 0 and x = 0 and y = 0 and params = angerParams and h = "1 / 100" and calls = "[?q]"]
  have s: "servedValue [?q] (Call 0 0 1 0 0 angerParams (1 / 100))
       = servedValue [?q] (Call 0 1 0 0 0 angerParams (1 / 100))"
    using t i own by blast
  show ?thesis
    using t i k s c by blast
qed


text \<open>
  As worded the claim fails where the two entries differ. After one call for \<open>(0, 0, 1)\<close>
  at \<open>x = 0.0004\<close>, the call for \<open>(0, 0, 1)\<close> at \<open>x = 0\<close> (same key, same parameters, same
  step) returns the stored negative value, and the call for \<open>(0, 1, 0)\<close> at \<open>x = 0\<close>
  that follows it misses the cache and returns 0.
\<close>

theorem cache_cell_breaks_symmetry_counterexample:
  "fst (computeChristoffelSymbol 0 0 1 0 (51 / 5000) angerParams (1 / 100)
          (cacheAfter [Call 0 0 1 (1 / 2500) (51 / 5000) angerParams (1 / 100)]))
     = Inr (christoffelGamma 0 0 1 (1 / 2500) (51 / 5000) angerParams (1 / 100))
   \<and> christoffelGamma 0 0 1 (1 / 2500) (51 / 5000) angerParams (1 / 100) < 0
   \<and> fst (computeChristoffelSymbol 0 1 0 0 (51 / 5000) angerParams (1 / 100)
          (snd (computeChristoffelSymbol 0 0 1 0 (51 / 5000) angerParams (1 / 100)
                 (cacheAfter [Call 0 0 1 (1 / 2500) (51 / 5000) angerParams (1 / 100)]))))
     = Inr 0
   \<and> fst (computeChristoffelSymbol 0 0 1 0 (51 / 5000) angerParams (1 / 100)
          (cacheAfter [Call 0 0 1 (1 / 2500) (51 / 5000) angerParams (1 / 100)]))
     \<noteq> fst (computeChristoffelSymbol 0 1 0 0 (51 / 5000) angerParams (1 / 100)
          (snd (computeChristoffelSymbol 0 0 1 0 (51 / 5000) angerParams (1 / 100)
                 (cacheAfter [Call 0 0 1 (1 / 2500) (51 / 5000) angerParams (1 / 100)]))))"
proof -
  let ?c = "cacheAfter [Call 0 0 1 (1 / 2500) (51 / 5000) angerParams (1 / 100)]"
  let ?g = "christoffelGamma 0 0 1 (1 / 2500) (51 / 5000) angerParams (1 / 100)"
  have k: "cacheKey 0 0 1 (1 / 2500) (51 / 5000) = cacheKey 0 0 1 0 (51 / 5000)"
    by (simp add: cacheKey_def toFixed3_def)
  have c: "?c = [cacheKey 0 0 1 0 (51 / 5000) \<mapsto> ?g]"
    using cacheAfter_single [of 0 0 1 "1 / 2500" "51 / 5000" angerParams "1 / 100"] k by simp
  have hit: "computeChristoffelSymbol 0 0 1 0 (51 / 5000) angerParams (1 / 100) ?c = (Inr ?g, ?c)"
    by (rule christoffel_hit) (unfold c, simp)
  have miss: "?c (cacheKey 0 1 0 0 (51 / 5000)) = None"
    unfolding c by (simp add: cacheKey_def)
  have second: "fst (computeChristoffelSymbol 0 1 0 0 (51 / 5000) angerParams (1 / 100) ?c) = Inr 0"
    using christoffel_miss [of ?c 0 1 0 0 "51 / 5000" angerParams "1 / 100"] miss gamma_cell_left'
    by simp
  show ?thesis
    unfolding hit snd_conv fst_conv second using gamma_cell_right by simp
qed


section \<open>The flat-surface reduction\<close>

text \<open>
  C4. The claim evaluated on a manifold object that was used before with other parameters.
  The key of the cache has no field for the parameter record. After one call for
  \<open>(0, 0, 1)\<close> at the origin with the parameters \<open>angerParams\<close>, the same call with the
  flat parameters (\<open>V = 0\<close>) returns the value stored for \<open>angerParams\<close>, which is below
  \<open>-1\<close>, where the claim, and the computation on an empty cache, give 0.
\<close>

theorem stale_cache_on_flat_surface:
  "V flatParams = 0
   \<and> fst (computeChristoffelSymbol 0 0 1 0 0 flatParams (1 / 100) Map.empty) = Inr 0
   \<and> fst (computeChristoffelSymbol 0 0 1 0 0 flatParams (1 / 100)
           (cacheAfter [Call 0 0 1 0 0 angerParams (1 / 100)]))
       = Inr (christoffelGamma 0 0 1 0 0 angerParams (1 / 100))
   \<and> christoffelGamma 0 0 1 0 0 angerParams (1 / 100) < - 1"
proof -
  let ?g = "christoffelGamma 0 0 1 0 0 angerParams (1 / 100)"
  have c: "cacheAfter [Call 0 0 1 0 0 angerParams (1 / 100)] = [cacheKey 0 0 1 0 0 \<mapsto> ?g]"
    using cacheAfter_single [of 0 0 1 0 0 angerParams "1 / 100"] by simp
  have hit: "computeChristoffelSymbol 0 0 1 0 0 flatParams (1 / 100)
               (cacheAfter [Call 0 0 1 0 0 angerParams (1 / 100)]) = (Inr ?g, cacheAfter [Call 0 0 1 0 0 angerParams (1 / 100)])"
    by (rule christoffel_hit) (unfold c, simp)
  have fresh: "fst (computeChristoffelSymbol 0 0 1 0 0 flatParams (1 / 100) Map.empty) = Inr 0"
    using christoffel_miss [of Map.empty 0 0 1 0 0 flatParams "1 / 100"]
      gamma_flat [OF flat_V, of 0 0 1 0 0 "1 / 100"] by simp
  show ?thesis
    unfolding hit fst_conv using flat_V fresh gamma_anger_origin by simp
qed


text \<open>
  On a cache whose stored values are all 0, the empty cache of a new manifold object among
  them, the reduction holds for every record with \<open>V = 0\<close>: the height is 0 everywhere,
  every connection coefficient is 0, both curvature measures are 0, and the geodesic is
  the straight trace of constant velocity, whose points are equally spaced on a line.
\<close>

lemma straightTrace_nth:
  "i < length (straightTrace n dt x y vx vy) \<Longrightarrow>
   straightTrace n dt x y vx vy ! i
     = Vector3 ((x + real (Suc i) * dt * vx) * 3) ((y + real (Suc i) * dt * vy) * 3) 0"
proof (induction n arbitrary: i x y)
  case 0
  then show ?case by simp
next
  case (Suc n)
  show ?case
  proof (cases i)
    case 0
    then show ?thesis by (simp add: Let_def)
  next
    case (Suc i')
    with Suc.prems have out: "\<not> (\<bar>x + dt * vx\<bar> > 1 \<or> \<bar>y + dt * vy\<bar> > 1)"
      and len: "i' < length (straightTrace n dt (x + dt * vx) (y + dt * vy) vx vy)"
      by (auto simp: Let_def split: if_splits)
    show ?thesis
      using out Suc.IH [OF len] by (simp add: Suc Let_def algebra_simps)
  qed
qed

lemma transportLoop_flat:
  assumes "V params = 0"
  shows "valid zeroCache (transportLoop params path Vv res)
     (\<lambda>out. out = res @ map (\<lambda>q. \<lparr> position = q, vector = Vector2 (fst Vv) (snd Vv) \<rparr>) (butlast path))"
proof (induction path arbitrary: res)
  case Nil
  show ?case by (simp add: valid_ret)
next
  case (Cons p1 tl)
  show ?case
  proof (cases tl)
    case Nil
    then show ?thesis by (simp add: valid_ret)
  next
    case (Cons p2 rest)
    have "valid zeroCache
        (transportLoop params (p2 # rest) Vv (res @ [\<lparr> position = p1, vector = Vector2 (fst Vv) (snd Vv) \<rparr>]))
        (\<lambda>out. out = res @ map (\<lambda>q. \<lparr> position = q, vector = Vector2 (fst Vv) (snd Vv) \<rparr>) (butlast (p1 # p2 # rest)))"
      by (rule valid_weaken [OF Cons.IH [unfolded Cons]]) simp
    then show ?thesis
      unfolding Cons transportLoop.simps Let_def
      by (intro six_christoffel_valid_flat [OF assms]) (simp del: transportLoop.simps)
  qed
qed

lemma curvature_flat: "V params = 0 \<Longrightarrow> computeCurvature x y params h = 0"
  by (simp add: computeCurvature_def height_flat)

lemma connectionCurvature_flat:
  assumes "V params = 0"
  shows "valid zeroCache (computeConnectionCurvature x y params h) (\<lambda>r. r = 0)"
  unfolding computeConnectionCurvature_def Let_def parallelTransport_def
  by (rule valid_bnd [OF transportLoop_flat [OF assms]]) (simp add: valid_ret)

lemma flat_christoffel_zero:
  assumes "V params = 0" "zeroCache c" "i < 2" "j < 2" "k < 2"
  shows "fst (computeChristoffelSymbol i j k x y params h c) = Inr 0"
  using validD [OF christoffel_valid_flat [OF assms(1,3,4,5)] assms(2), of x y h] by auto

lemma flat_connectionCurvature_zero:
  assumes "V params = 0" "zeroCache c"
  shows "fst (computeConnectionCurvature x y params h c) = Inr 0"
  using validD [OF connectionCurvature_flat [OF assms(1)] assms(2), of x y h] by auto


end
